theory Spec2Isabelle
  imports Complex_Main
begin

section \<open>Values, errors and the reducer state\<close>

text \<open>
  The payload type \<open>T\<close> of both hooks is whatever \<open>response.json()\<close> resolves with: a
  JSON value. The hooks look at a payload in one way only, its truthiness
  (\<open>if (cache[url])\<close>, \<open>if (cacheData)\<close>), so \<open>truthy\<close> follows JavaScript's ToBoolean on
  the values JSON can produce: \<open>null\<close>, \<open>false\<close>, the number zero and the empty string are
  falsy, every array and every object (also the empty ones) is truthy.
\<close>

datatype jsval =
    JNull
  | JBool bool
  | JNum rat
  | JStr string
  | JArr "jsval list"
  | JObj "(string \<times> jsval) list"

fun truthy :: "jsval \<Rightarrow> bool" where
  "truthy JNull = False"
| "truthy (JBool b) = b"
| "truthy (JNum n) = (n \<noteq> 0)"
| "truthy (JStr s) = (s \<noteq> [])"
| "truthy (JArr xs) = True"
| "truthy (JObj kvs) = True"

text \<open>A thrown or rejected value, kept by its message: \<open>new Error(response.statusText)\<close>
  is \<open>JsError statusText\<close>.\<close>

datatype js_error = JsError string

text \<open>\<open>interface State<T> { data?: T; error?: Error; isLoading?: boolean }\<close>: an absent or
  \<open>undefined\<close> field is \<open>None\<close>.\<close>

record State =
  data :: "jsval option"
  error :: "js_error option"
  isLoading :: "bool option"

text \<open>\<open>type Action<T>\<close>: the three tagged actions. The reducers' \<open>default\<close> branch is not
  reachable through this type.\<close>

datatype Action = Loading | Fetched jsval | Error js_error

subsection \<open>The reducer of useFetchWithObject (volatile cache)\<close>

definition obj_initialState :: State where
  "obj_initialState = \<lparr>data = None, error = None, isLoading = None\<rparr>"

fun obj_fetchReducer :: "State \<Rightarrow> Action \<Rightarrow> State" where
  "obj_fetchReducer s Loading = obj_initialState\<lparr>isLoading := Some True\<rparr>"
| "obj_fetchReducer s (Fetched p) = obj_initialState\<lparr>data := Some p, isLoading := Some False\<rparr>"
| "obj_fetchReducer s (Error e) = obj_initialState\<lparr>error := Some e, isLoading := Some False\<rparr>"

subsection \<open>The reducer of useFetchWithIndexedDb (durable cache)\<close>

definition idb_initialState :: State where
  "idb_initialState = \<lparr>data = None, error = None, isLoading = Some False\<rparr>"

fun idb_fetchReducer :: "State \<Rightarrow> Action \<Rightarrow> State" where
  "idb_fetchReducer s Loading = idb_initialState"
| "idb_fetchReducer s (Fetched p) = idb_initialState\<lparr>data := Some p\<rparr>"
| "idb_fetchReducer s (Error e) = idb_initialState\<lparr>error := Some e\<rparr>"

text \<open>The lifecycle states of the specification, read off the three fields. \<open>idle\<close> is the
  state with nothing populated and no loading flag raised.\<close>

definition at_most_one :: "State \<Rightarrow> bool" where
  "at_most_one s = (data s = None \<or> error s = None)"

definition is_idle :: "State \<Rightarrow> bool" where
  "is_idle s = (data s = None \<and> error s = None \<and> isLoading s \<noteq> Some True)"

section \<open>One hook instance and its pending operations\<close>

text \<open>
  What a hook instance does that an outside observer can see, in order: the calls of
  \<open>dispatch\<close> (tagged with the url captured by the operation that made them), the calls of
  the transport \<open>fetch(url, options)\<close>, and the reads and writes of the cache
  (\<open>cache[url]\<close>, \<open>cache[url] = data\<close>, \<open>cacheDb.getItem(url)\<close>, \<open>cacheDb.setItem(url, data)\<close>).
\<close>

datatype event =
    Dispatch string Action
  | TransportCall string
  | CacheRead string
  | CacheWrite string jsval

text \<open>An operation suspended at an \<open>await\<close>, with what its closure holds: the url, and at
  \<open>await cacheDb.setItem(url, data)\<close> also the data.\<close>

datatype task =
    AwaitGet string
  | AwaitFetch string
  | AwaitJson string
  | AwaitSet string jsval

text \<open>How the awaited promise settles: \<open>fetch\<close> resolves with a response (its \<open>ok\<close> and
  \<open>statusText\<close>), \<open>response.json()\<close> with a body, \<open>getItem\<close> and \<open>setItem\<close> just resolve
  (the value \<open>getItem\<close> resolves with is the store's entry), and each of them may reject.\<close>

datatype outcome =
    Response bool string
  | Body jsval
  | Done
  | Failed js_error

fun accepts :: "task \<Rightarrow> outcome \<Rightarrow> bool" where
  "accepts (AwaitGet url) Done = True"
| "accepts (AwaitFetch url) (Response ok statusText) = True"
| "accepts (AwaitJson url) (Body d) = True"
| "accepts (AwaitSet url d) Done = True"
| "accepts t (Failed e) = True"
| "accepts t r = False"

text \<open>
  The hook instance: the reducer state, the ref \<open>cancelRequest\<close> (one per hook instance,
  shared by all its operations), whether the last run of the effect returned a cleanup
  function, the dependency the effect last ran with (\<open>None\<close> before the first render),
  the cache (the module-level object \<open>cache\<close> of App.tsx, or the key-value store behind
  \<open>cacheDb\<close>), the suspended operations and the trace.

  The cache is the map of its own entries: a url is taken not to name a property that
  the object \<open>cache\<close> inherits from \<open>Object.prototype\<close>. The trace records every call of
  \<open>dispatch\<close>, also one made after the unmount, and \<open>state\<close> is what the reducer
  returned for the last of them.
\<close>

record hook =
  state :: State
  cancelRequest :: bool
  cleanup :: bool
  deps :: "string option option"
  cache :: "string \<Rightarrow> jsval option"
  pending :: "task list"
  trace :: "event list"

definition emit :: "event \<Rightarrow> hook \<Rightarrow> hook" where
  "emit e h = h\<lparr>trace := trace h @ [e]\<rparr>"

definition suspend :: "task \<Rightarrow> hook \<Rightarrow> hook" where
  "suspend t h = h\<lparr>pending := pending h @ [t]\<rparr>"

definition drop_task :: "nat \<Rightarrow> hook \<Rightarrow> hook" where
  "drop_task k h = h\<lparr>pending := take k (pending h) @ drop (Suc k) (pending h)\<rparr>"

text \<open>The cleanup function both effects return: \<open>cancelRequest.current = true\<close>. React runs
  it before the effect runs again and at unmount, when the last run returned one.\<close>

definition run_cleanup :: "hook \<Rightarrow> hook" where
  "run_cleanup h = (if cleanup h then h\<lparr>cancelRequest := True, cleanup := False\<rparr> else h)"

datatype 'u input = Render 'u | Unmount | Resolve nat outcome

subsection \<open>useFetchWithObject\<close>

definition obj_init :: "(string \<Rightarrow> jsval option) \<Rightarrow> hook" where
  "obj_init c = \<lparr>state = obj_initialState, cancelRequest = False, cleanup = False,
     deps = None, cache = c, pending = [], trace = []\<rparr>"

definition obj_dispatch :: "string \<Rightarrow> Action \<Rightarrow> hook \<Rightarrow> hook" where
  "obj_dispatch url a h = emit (Dispatch url a) (h\<lparr>state := obj_fetchReducer (state h) a\<rparr>)"

text \<open>\<open>fetchData\<close> up to its first \<open>await\<close>: dispatch \<open>loading\<close>, then the truthiness test of
  \<open>cache[url]\<close>; on a hit dispatch \<open>fetched\<close> with \<open>cache[url]\<close> and return, otherwise call
  \<open>fetch\<close> and suspend.\<close>

definition obj_fetchData :: "string \<Rightarrow> hook \<Rightarrow> hook" where
  "obj_fetchData url h =
     (let h1 = emit (CacheRead url) (obj_dispatch url Loading h) in
      case cache h1 url of
        None \<Rightarrow> suspend (AwaitFetch url) (emit (TransportCall url) h1)
      | Some v \<Rightarrow>
          if truthy v then obj_dispatch url (Fetched v) (emit (CacheRead url) h1)
          else suspend (AwaitFetch url) (emit (TransportCall url) h1))"

text \<open>The \<open>catch\<close> block: \<open>if (cancelRequest.current) return\<close>, then dispatch \<open>error\<close>.\<close>

definition obj_catch :: "string \<Rightarrow> js_error \<Rightarrow> hook \<Rightarrow> hook" where
  "obj_catch url e h = (if cancelRequest h then h else obj_dispatch url (Error e) h)"

text \<open>\<open>fetchData\<close> resumed after an \<open>await\<close> of its \<open>try\<close> block.\<close>

fun obj_resume :: "task \<Rightarrow> outcome \<Rightarrow> hook \<Rightarrow> hook" where
  "obj_resume (AwaitFetch url) (Response ok statusText) h =
     (if \<not> ok then obj_catch url (JsError statusText) h else suspend (AwaitJson url) h)"
| "obj_resume (AwaitFetch url) (Failed e) h = obj_catch url e h"
| "obj_resume (AwaitJson url) (Body d) h =
     (let h1 = emit (CacheWrite url d) (h\<lparr>cache := (cache h)(url \<mapsto> d)\<rparr>) in
      if cancelRequest h1 then h1 else obj_dispatch url (Fetched d) h1)"
| "obj_resume (AwaitJson url) (Failed e) h = obj_catch url e h"
| "obj_resume t r h = h"

text \<open>The effect body: \<open>if (!url) return\<close> (no cleanup is returned then), else reset the
  ref, start \<open>fetchData\<close> and return the cleanup.\<close>

definition obj_effect :: "string option \<Rightarrow> hook \<Rightarrow> hook" where
  "obj_effect u h =
     (case u of
        None \<Rightarrow> h
      | Some url \<Rightarrow>
          if url = [] then h
          else (obj_fetchData url (h\<lparr>cancelRequest := False\<rparr>))\<lparr>cleanup := True\<rparr>)"

text \<open>A render with url \<open>u\<close>: the effect has the dependency list \<open>[url]\<close>, so it runs at the
  first render and whenever \<open>u\<close> differs from the last one, after the previous cleanup.\<close>

definition obj_render :: "string option \<Rightarrow> hook \<Rightarrow> hook" where
  "obj_render u h =
     (if deps h = Some u then h else (obj_effect u (run_cleanup h))\<lparr>deps := Some u\<rparr>)"

fun obj_step :: "hook \<Rightarrow> string option input \<Rightarrow> hook" where
  "obj_step h (Render u) = obj_render u h"
| "obj_step h Unmount = run_cleanup h"
| "obj_step h (Resolve k r) =
     (if k < length (pending h) \<and> accepts (pending h ! k) r
      then obj_resume (pending h ! k) r (drop_task k h) else h)"

definition obj_run :: "hook \<Rightarrow> string option input list \<Rightarrow> hook" where
  "obj_run = foldl obj_step"

subsection \<open>useFetchWithIndexedDb\<close>

definition idb_init :: "(string \<Rightarrow> jsval option) \<Rightarrow> hook" where
  "idb_init c = \<lparr>state = idb_initialState, cancelRequest = False, cleanup = False,
     deps = None, cache = c, pending = [], trace = []\<rparr>"

definition idb_dispatch :: "string \<Rightarrow> Action \<Rightarrow> hook \<Rightarrow> hook" where
  "idb_dispatch url a h = emit (Dispatch url a) (h\<lparr>state := idb_fetchReducer (state h) a\<rparr>)"

text \<open>\<open>fetchData\<close> up to its first \<open>await\<close>: dispatch \<open>loading\<close>, call \<open>cacheDb.getItem(url)\<close>.\<close>

definition idb_fetchData :: "string \<Rightarrow> hook \<Rightarrow> hook" where
  "idb_fetchData url h = suspend (AwaitGet url) (emit (CacheRead url) (idb_dispatch url Loading h))"

definition idb_catch :: "string \<Rightarrow> js_error \<Rightarrow> hook \<Rightarrow> hook" where
  "idb_catch url e h = (if cancelRequest h then h else idb_dispatch url (Error e) h)"

text \<open>The value \<open>getItem\<close> resolves with: the stored entry, \<open>null\<close> for a key that is not
  in the store.\<close>

definition getItem :: "hook \<Rightarrow> string \<Rightarrow> jsval" where
  "getItem h url = (case cache h url of None \<Rightarrow> JNull | Some v \<Rightarrow> v)"

text \<open>\<open>fetchData\<close> resumed after an \<open>await\<close>. \<open>await cacheDb.getItem(url)\<close> stands before the
  \<open>try\<close> block: when it rejects, the async function ends there. \<open>await cacheDb.setItem\<close>
  stands inside it: when it rejects, the \<open>catch\<close> block runs.\<close>

fun idb_resume :: "task \<Rightarrow> outcome \<Rightarrow> hook \<Rightarrow> hook" where
  "idb_resume (AwaitGet url) Done h =
     (if truthy (getItem h url) then idb_dispatch url (Fetched (getItem h url)) h
      else suspend (AwaitFetch url) (emit (TransportCall url) h))"
| "idb_resume (AwaitGet url) (Failed e) h = h"
| "idb_resume (AwaitFetch url) (Response ok statusText) h =
     (if \<not> ok then idb_catch url (JsError statusText) h else suspend (AwaitJson url) h)"
| "idb_resume (AwaitFetch url) (Failed e) h = idb_catch url e h"
| "idb_resume (AwaitJson url) (Body d) h = suspend (AwaitSet url d) (emit (CacheWrite url d) h)"
| "idb_resume (AwaitJson url) (Failed e) h = idb_catch url e h"
| "idb_resume (AwaitSet url d) Done h =
     (let h1 = h\<lparr>cache := (cache h)(url \<mapsto> d)\<rparr> in
      if cancelRequest h1 then h1 else idb_dispatch url (Fetched d) h1)"
| "idb_resume (AwaitSet url d) (Failed e) h = idb_catch url e h"
| "idb_resume t r h = h"

text \<open>The effect body: \<open>if (url) { cancelRequest.current = false; fetchData() }\<close>; the
  cleanup is returned on every run.\<close>

definition idb_effect :: "string \<Rightarrow> hook \<Rightarrow> hook" where
  "idb_effect url h =
     ((if url = [] then h else idb_fetchData url (h\<lparr>cancelRequest := False\<rparr>))\<lparr>cleanup := True\<rparr>)"

definition idb_render :: "string \<Rightarrow> hook \<Rightarrow> hook" where
  "idb_render url h =
     (if deps h = Some (Some url) then h
      else (idb_effect url (run_cleanup h))\<lparr>deps := Some (Some url)\<rparr>)"

fun idb_step :: "hook \<Rightarrow> string input \<Rightarrow> hook" where
  "idb_step h (Render url) = idb_render url h"
| "idb_step h Unmount = run_cleanup h"
| "idb_step h (Resolve k r) =
     (if k < length (pending h) \<and> accepts (pending h ! k) r
      then idb_resume (pending h ! k) r (drop_task k h) else h)"

definition idb_run :: "hook \<Rightarrow> string input list \<Rightarrow> hook" where
  "idb_run = foldl idb_step"

section \<open>Facts shared by the proofs\<close>

lemmas hook_defs =
  emit_def suspend_def drop_task_def run_cleanup_def
  obj_dispatch_def obj_fetchData_def obj_catch_def obj_effect_def obj_render_def
  idb_dispatch_def idb_fetchData_def idb_catch_def idb_effect_def idb_render_def getItem_def

lemma obj_reducer_at_most_one: "at_most_one (obj_fetchReducer s a)"
  by (cases a) (simp_all add: at_most_one_def obj_initialState_def)

lemma idb_reducer_at_most_one: "at_most_one (idb_fetchReducer s a)"
  by (cases a) (simp_all add: at_most_one_def idb_initialState_def)

lemma obj_resume_at_most_one:
  "at_most_one (state h) \<Longrightarrow> at_most_one (state (obj_resume t r h))"
  by (cases "(t, r, h)" rule: obj_resume.cases)
     (simp_all add: hook_defs at_most_one_def obj_initialState_def Let_def)

lemma idb_resume_at_most_one:
  "at_most_one (state h) \<Longrightarrow> at_most_one (state (idb_resume t r h))"
  by (cases "(t, r, h)" rule: idb_resume.cases)
     (simp_all add: hook_defs at_most_one_def idb_initialState_def Let_def)

lemma obj_step_at_most_one:
  "at_most_one (state h) \<Longrightarrow> at_most_one (state (obj_step h i))"
proof (cases i)
  case (Render u)
  assume "at_most_one (state h)"
  then show ?thesis
    using Render
    by (simp add: hook_defs at_most_one_def obj_initialState_def Let_def split: option.splits)
next
  case Unmount
  assume "at_most_one (state h)"
  then show ?thesis using Unmount by (simp add: run_cleanup_def)
next
  case (Resolve k r)
  assume "at_most_one (state h)"
  then have "at_most_one (state (drop_task k h))" by (simp add: drop_task_def)
  then show ?thesis
    using Resolve \<open>at_most_one (state h)\<close> by (simp add: obj_resume_at_most_one)
qed

lemma idb_step_at_most_one:
  "at_most_one (state h) \<Longrightarrow> at_most_one (state (idb_step h i))"
proof (cases i)
  case (Render u)
  assume "at_most_one (state h)"
  then show ?thesis
    using Render by (simp add: hook_defs at_most_one_def idb_initialState_def)
next
  case Unmount
  assume "at_most_one (state h)"
  then show ?thesis using Unmount by (simp add: run_cleanup_def)
next
  case (Resolve k r)
  assume "at_most_one (state h)"
  then have "at_most_one (state (drop_task k h))" by (simp add: drop_task_def)
  then show ?thesis
    using Resolve \<open>at_most_one (state h)\<close> by (simp add: idb_resume_at_most_one)
qed

lemma obj_run_at_most_one:
  "at_most_one (state h) \<Longrightarrow> at_most_one (state (obj_run h ins))"
  unfolding obj_run_def
  by (induction ins arbitrary: h) (simp_all add: obj_step_at_most_one)

lemma idb_run_at_most_one:
  "at_most_one (state h) \<Longrightarrow> at_most_one (state (idb_run h ins))"
  unfolding idb_run_def
  by (induction ins arbitrary: h) (simp_all add: idb_step_at_most_one)

lemma obj_fold_at_most_one: "at_most_one (foldl obj_fetchReducer obj_initialState acts)"
  by (induction acts rule: rev_induct)
     (simp_all add: obj_reducer_at_most_one, simp add: at_most_one_def obj_initialState_def)

lemma idb_fold_at_most_one: "at_most_one (foldl idb_fetchReducer idb_initialState acts)"
  by (induction acts rule: rev_induct)
     (simp_all add: idb_reducer_at_most_one, simp add: at_most_one_def idb_initialState_def)

lemmas run_defs =
  obj_run_def idb_run_def obj_init_def idb_init_def obj_initialState_def idb_initialState_def

lemma idb_reducer_isLoading: "isLoading (idb_fetchReducer s a) = Some False"
  by (cases a) (simp_all add: idb_initialState_def)

lemma idb_fold_isLoading:
  "isLoading (foldl idb_fetchReducer idb_initialState acts) = Some False"
  by (induction acts rule: rev_induct)
     (simp_all add: idb_reducer_isLoading, simp add: idb_initialState_def)

lemma idb_resume_isLoading:
  "isLoading (state h) = Some False \<Longrightarrow> isLoading (state (idb_resume t r h)) = Some False"
  by (cases "(t, r, h)" rule: idb_resume.cases)
     (simp_all add: hook_defs idb_initialState_def Let_def)

lemma idb_step_isLoading:
  "isLoading (state h) = Some False \<Longrightarrow> isLoading (state (idb_step h i)) = Some False"
proof (cases i)
  case (Render u)
  assume "isLoading (state h) = Some False"
  then show ?thesis using Render by (simp add: hook_defs idb_initialState_def)
next
  case Unmount
  assume "isLoading (state h) = Some False"
  then show ?thesis using Unmount by (simp add: run_cleanup_def)
next
  case (Resolve k r)
  assume a: "isLoading (state h) = Some False"
  then have "isLoading (state (drop_task k h)) = Some False" by (simp add: drop_task_def)
  then show ?thesis using Resolve a by (simp add: idb_resume_isLoading)
qed

lemma idb_run_isLoading:
  "isLoading (state h) = Some False \<Longrightarrow> isLoading (state (idb_run h ins)) = Some False"
  unfolding idb_run_def
  by (induction ins arbitrary: h) (simp_all add: idb_step_isLoading)

text \<open>Whenever a step dispatches \<open>fetched\<close> with a payload, the cache holds that payload
  under the operation's url once the step is over.\<close>

lemma obj_resume_fetched_cached:
  "Dispatch url (Fetched P) \<in> set (drop (length (trace h)) (trace (obj_resume t r h)))
   \<Longrightarrow> cache (obj_resume t r h) url = Some P"
  by (cases "(t, r, h)" rule: obj_resume.cases)
     (auto simp add: hook_defs Let_def split: if_splits)

lemma idb_resume_fetched_cached:
  "Dispatch url (Fetched P) \<in> set (drop (length (trace h)) (trace (idb_resume t r h)))
   \<Longrightarrow> cache (idb_resume t r h) url = Some P"
  by (cases "(t, r, h)" rule: idb_resume.cases)
     (auto simp add: hook_defs Let_def split: if_splits option.splits)

lemma obj_step_fetched_cached:
  "Dispatch url (Fetched P) \<in> set (drop (length (trace h)) (trace (obj_step h i)))
   \<Longrightarrow> cache (obj_step h i) url = Some P"
proof (cases i)
  case (Render u)
  assume "Dispatch url (Fetched P) \<in> set (drop (length (trace h)) (trace (obj_step h i)))"
  then show ?thesis
    using Render by (auto simp add: hook_defs Let_def split: if_splits option.splits)
next
  case Unmount
  assume "Dispatch url (Fetched P) \<in> set (drop (length (trace h)) (trace (obj_step h i)))"
  then show ?thesis using Unmount by (simp add: run_cleanup_def split: if_splits)
next
  case (Resolve k r)
  assume a: "Dispatch url (Fetched P) \<in> set (drop (length (trace h)) (trace (obj_step h i)))"
  have t: "trace (drop_task k h) = trace h" by (simp add: drop_task_def)
  show ?thesis
    using a Resolve obj_resume_fetched_cached [of url P "drop_task k h" "pending h ! k" r]
    by (simp add: t split: if_splits)
qed

lemma idb_step_fetched_cached:
  "Dispatch url (Fetched P) \<in> set (drop (length (trace h)) (trace (idb_step h i)))
   \<Longrightarrow> cache (idb_step h i) url = Some P"
proof (cases i)
  case (Render u)
  assume "Dispatch url (Fetched P) \<in> set (drop (length (trace h)) (trace (idb_step h i)))"
  then show ?thesis
    using Render by (auto simp add: hook_defs Let_def split: if_splits option.splits)
next
  case Unmount
  assume "Dispatch url (Fetched P) \<in> set (drop (length (trace h)) (trace (idb_step h i)))"
  then show ?thesis using Unmount by (simp add: run_cleanup_def split: if_splits)
next
  case (Resolve k r)
  assume a: "Dispatch url (Fetched P) \<in> set (drop (length (trace h)) (trace (idb_step h i)))"
  have t: "trace (drop_task k h) = trace h" by (simp add: drop_task_def)
  show ?thesis
    using a Resolve idb_resume_fetched_cached [of url P "drop_task k h" "pending h ! k" r]
    by (simp add: t split: if_splits)
qed

section \<open>The reducers\<close>

text \<open>
  C7. In every state either reducer can reach from its initial state, whatever the
  sequence of actions, at most one of \<open>data\<close> and \<open>error\<close> is populated; the same holds of
  the state of a hook instance after any sequence of renders, unmounts and settled
  promises. \<open>loading\<close> clears both from any prior state, \<open>fetched\<close> sets \<open>data\<close> and leaves
  \<open>error\<close> undefined, \<open>error\<close> sets \<open>error\<close> and leaves \<open>data\<close> undefined.
\<close>

theorem C7_at_most_one_of_data_and_error:
  "at_most_one (foldl obj_fetchReducer obj_initialState acts)
   \<and> at_most_one (foldl idb_fetchReducer idb_initialState acts)
   \<and> at_most_one (state (obj_run (obj_init c) ins))
   \<and> at_most_one (state (idb_run (idb_init c) ins'))
   \<and> data (obj_fetchReducer s Loading) = None \<and> error (obj_fetchReducer s Loading) = None
   \<and> data (idb_fetchReducer s Loading) = None \<and> error (idb_fetchReducer s Loading) = None
   \<and> data (obj_fetchReducer s (Fetched p)) = Some p \<and> error (obj_fetchReducer s (Fetched p)) = None
   \<and> data (idb_fetchReducer s (Fetched p)) = Some p \<and> error (idb_fetchReducer s (Fetched p)) = None
   \<and> data (obj_fetchReducer s (Error e)) = None \<and> error (obj_fetchReducer s (Error e)) = Some e
   \<and> data (idb_fetchReducer s (Error e)) = None \<and> error (idb_fetchReducer s (Error e)) = Some e"
proof -
  have "at_most_one (state (obj_init c))"
    by (simp add: obj_init_def at_most_one_def obj_initialState_def)
  then have a: "at_most_one (state (obj_run (obj_init c) ins))"
    by (rule obj_run_at_most_one)
  have "at_most_one (state (idb_init c))"
    by (simp add: idb_init_def at_most_one_def idb_initialState_def)
  then have b: "at_most_one (state (idb_run (idb_init c) ins'))"
    by (rule idb_run_at_most_one)
  show ?thesis
    using a b obj_fold_at_most_one [of acts] idb_fold_at_most_one [of acts]
    by (simp add: obj_initialState_def idb_initialState_def)
qed

text \<open>
  C10. In the durable variant \<open>isLoading\<close> is \<open>false\<close> in every reachable state: after any
  sequence of actions from the initial state, and in the state of a hook instance after
  any sequence of renders, unmounts and settled promises. The initial state has
  \<open>isLoading: false\<close> and the \<open>loading\<close> action returns a copy of it, whereas the
  \<open>loading\<close> action of the volatile variant sets \<open>isLoading\<close> to \<open>true\<close>.
\<close>

theorem C10_idb_isLoading_never_true:
  "isLoading (foldl idb_fetchReducer idb_initialState acts) = Some False
   \<and> isLoading (state (idb_run (idb_init c) ins)) = Some False
   \<and> isLoading idb_initialState = Some False
   \<and> idb_fetchReducer s Loading = idb_initialState
   \<and> isLoading (obj_fetchReducer s Loading) = Some True"
proof -
  have "isLoading (state (idb_init c)) = Some False"
    by (simp add: idb_init_def idb_initialState_def)
  then have "isLoading (state (idb_run (idb_init c) ins)) = Some False"
    by (rule idb_run_isLoading)
  then show ?thesis
    using idb_fold_isLoading [of acts] by (simp add: idb_initialState_def obj_initialState_def)
qed

section \<open>Cancellation\<close>

text \<open>
  C1. A stale operation must dispatch nothing once its flag has been set. The code does
  not keep to that on two paths, evaluated here.

  Durable variant, consumer disposed while \<open>getItem\<close> is pending and the store holds a
  truthy entry: the ref is \<open>true\<close> after the unmount, and the cache-hit branch, which
  follows an \<open>await\<close> and has no test of the ref, still dispatches \<open>fetched\<close>.

  Volatile variant, identifier changed from \<open>a\<close> to \<open>b\<close> while \<open>a\<close> is in flight: the
  cleanup sets the ref, the next run of the effect resets the same ref to \<open>false\<close>, and
  the operation of \<open>a\<close>, resolving last, dispatches \<open>fetched\<close>: the state carries the
  payload of \<open>a\<close> while the current identifier is \<open>b\<close>.
\<close>

theorem C1_stale_operation_dispatches:
  "cancelRequest (idb_run (idb_init (Map.empty(''a'' \<mapsto> JStr ''v''))) [Render ''a'', Unmount])
   \<and> trace (idb_run (idb_init (Map.empty(''a'' \<mapsto> JStr ''v''))) [Render ''a'', Unmount])
       = [Dispatch ''a'' Loading, CacheRead ''a'']
   \<and> trace (idb_run (idb_init (Map.empty(''a'' \<mapsto> JStr ''v'')))
        [Render ''a'', Unmount, Resolve 0 Done])
       = [Dispatch ''a'' Loading, CacheRead ''a'', Dispatch ''a'' (Fetched (JStr ''v''))]
   \<and> trace (obj_run (obj_init Map.empty)
        [Render (Some ''a''), Render (Some ''b''),
         Resolve 1 (Response True ''OK''), Resolve 1 (Body (JStr ''B'')),
         Resolve 0 (Response True ''OK''), Resolve 0 (Body (JStr ''A''))])
       = [Dispatch ''a'' Loading, CacheRead ''a'', TransportCall ''a'',
          Dispatch ''b'' Loading, CacheRead ''b'', TransportCall ''b'',
          CacheWrite ''b'' (JStr ''B''), Dispatch ''b'' (Fetched (JStr ''B'')),
          CacheWrite ''a'' (JStr ''A''), Dispatch ''a'' (Fetched (JStr ''A''))]
   \<and> data (state (obj_run (obj_init Map.empty)
        [Render (Some ''a''), Render (Some ''b''),
         Resolve 1 (Response True ''OK''), Resolve 1 (Body (JStr ''B'')),
         Resolve 0 (Response True ''OK''), Resolve 0 (Body (JStr ''A''))]))
       = Some (JStr ''A'')
   \<and> deps (obj_run (obj_init Map.empty)
        [Render (Some ''a''), Render (Some ''b''),
         Resolve 1 (Response True ''OK''), Resolve 1 (Body (JStr ''B'')),
         Resolve 0 (Response True ''OK''), Resolve 0 (Body (JStr ''A''))])
       = Some (Some ''b'')"
  by (simp add: run_defs hook_defs)

text \<open>The cache write of a successful transport call does not depend on the flag:
  \<open>cache[url] = data\<close> and \<open>await cacheDb.setItem(url, data)\<close> stand before the test of
  the ref. The dispatch that follows is left out exactly when the ref is set at that
  moment.\<close>

lemma body_written_whatever_the_flag:
  assumes "k < length (pending h)" and "pending h ! k = AwaitJson url"
    and "j < length (pending g)" and "pending g ! j = AwaitSet url P"
  shows "cache (obj_step h (Resolve k (Body P))) url = Some P
    \<and> trace (obj_step h (Resolve k (Body P)))
        = trace h @ CacheWrite url P # (if cancelRequest h then [] else [Dispatch url (Fetched P)])
    \<and> trace (idb_step h (Resolve k (Body P))) = trace h @ [CacheWrite url P]
    \<and> pending (idb_step h (Resolve k (Body P)))
        = take k (pending h) @ drop (Suc k) (pending h) @ [AwaitSet url P]
    \<and> cache (idb_step g (Resolve j Done)) url = Some P
    \<and> trace (idb_step g (Resolve j Done))
        = trace g @ (if cancelRequest g then [] else [Dispatch url (Fetched P)])"
  using assms by (simp add: hook_defs Let_def)

lemma report_left_out_when_ref_set:
  assumes "cancelRequest h" and "k < length (pending h)" and "pending h ! k = AwaitJson url"
    and "cancelRequest g" and "j < length (pending g)" and "pending g ! j = AwaitSet url P"
  shows "state (obj_step h (Resolve k (Body P))) = state h
    \<and> trace (obj_step h (Resolve k (Body P))) = trace h @ [CacheWrite url P]
    \<and> state (idb_step g (Resolve j Done)) = state g
    \<and> trace (idb_step g (Resolve j Done)) = trace g"
  using assms by (simp add: hook_defs Let_def)

text \<open>A render with another non-empty url leaves the ref \<open>false\<close>, whatever the cleanup
  did before: every operation still in flight passes the test of the ref from then on.\<close>

lemma ref_reset_by_next_identifier:
  assumes "url \<noteq> []" and "deps h \<noteq> Some (Some url)"
  shows "\<not> cancelRequest (obj_render (Some url) h) \<and> \<not> cancelRequest (idb_render url h)"
  using assms by (simp add: hook_defs Let_def split: option.splits)

text \<open>
  C9. A cancelled operation whose transport call succeeded must still write the cache
  and must not report to the stale consumer. The write is made in every case (see
  above). The report is not suppressed for an operation made stale by a change to
  another non-empty identifier, evaluated here in both variants: the identifier changes
  from \<open>a\<close> to \<open>b\<close> while \<open>a\<close> is in flight; the cleanup sets the ref and the next run
  of the effect resets it; when the body \<open>A\<close> of \<open>a\<close> arrives, the cache is written
  under \<open>a\<close> and \<open>fetched\<close> is dispatched with \<open>A\<close>, so the state carries the payload
  of \<open>a\<close> while the current identifier is \<open>b\<close> and the operation of \<open>b\<close> is still
  pending. This is the defect of C1, seen from the side of the cache write.
\<close>

theorem C9_stale_operation_writes_and_reports:
  "cancelRequest (run_cleanup (obj_run (obj_init Map.empty) [Render (Some ''a'')]))
   \<and> cancelRequest (obj_run (obj_init Map.empty) [Render (Some ''a''), Render (Some ''b'')]) = False
   \<and> cache (obj_run (obj_init Map.empty)
        [Render (Some ''a''), Render (Some ''b''),
         Resolve 0 (Response True ''OK''), Resolve 1 (Body (JStr ''A''))]) ''a''
       = Some (JStr ''A'')
   \<and> trace (obj_run (obj_init Map.empty)
        [Render (Some ''a''), Render (Some ''b''),
         Resolve 0 (Response True ''OK''), Resolve 1 (Body (JStr ''A''))])
       = [Dispatch ''a'' Loading, CacheRead ''a'', TransportCall ''a'',
          Dispatch ''b'' Loading, CacheRead ''b'', TransportCall ''b'',
          CacheWrite ''a'' (JStr ''A''), Dispatch ''a'' (Fetched (JStr ''A''))]
   \<and> state (obj_run (obj_init Map.empty)
        [Render (Some ''a''), Render (Some ''b''),
         Resolve 0 (Response True ''OK''), Resolve 1 (Body (JStr ''A''))])
       = \<lparr>data = Some (JStr ''A''), error = None, isLoading = Some False\<rparr>
   \<and> deps (obj_run (obj_init Map.empty)
        [Render (Some ''a''), Render (Some ''b''),
         Resolve 0 (Response True ''OK''), Resolve 1 (Body (JStr ''A''))])
       = Some (Some ''b'')
   \<and> pending (obj_run (obj_init Map.empty)
        [Render (Some ''a''), Render (Some ''b''),
         Resolve 0 (Response True ''OK''), Resolve 1 (Body (JStr ''A''))])
       = [AwaitFetch ''b'']
   \<and> cancelRequest (run_cleanup (idb_run (idb_init Map.empty) [Render ''a'']))
   \<and> cancelRequest (idb_run (idb_init Map.empty) [Render ''a'', Render ''b'']) = False
   \<and> cache (idb_run (idb_init Map.empty)
        [Render ''a'', Render ''b'', Resolve 0 Done, Resolve 1 (Response True ''OK''),
         Resolve 1 (Body (JStr ''A'')), Resolve 1 Done]) ''a''
       = Some (JStr ''A'')
   \<and> trace (idb_run (idb_init Map.empty)
        [Render ''a'', Render ''b'', Resolve 0 Done, Resolve 1 (Response True ''OK''),
         Resolve 1 (Body (JStr ''A'')), Resolve 1 Done])
       = [Dispatch ''a'' Loading, CacheRead ''a'', Dispatch ''b'' Loading, CacheRead ''b'',
          TransportCall ''a'', CacheWrite ''a'' (JStr ''A''),
          Dispatch ''a'' (Fetched (JStr ''A''))]
   \<and> state (idb_run (idb_init Map.empty)
        [Render ''a'', Render ''b'', Resolve 0 Done, Resolve 1 (Response True ''OK''),
         Resolve 1 (Body (JStr ''A'')), Resolve 1 Done])
       = \<lparr>data = Some (JStr ''A''), error = None, isLoading = Some False\<rparr>
   \<and> deps (idb_run (idb_init Map.empty)
        [Render ''a'', Render ''b'', Resolve 0 Done, Resolve 1 (Response True ''OK''),
         Resolve 1 (Body (JStr ''A'')), Resolve 1 Done])
       = Some (Some ''b'')"
  by (simp add: run_defs hook_defs)

section \<open>The durable store failing\<close>

text \<open>
  C2 (amended). In the durable variant, when \<open>getItem\<close> rejects, the operation ends there:
  \<open>await cacheDb.getItem(url)\<close> stands before the \<open>try\<close> block, so the transport is not
  called and nothing is dispatched after \<open>loading\<close>. The controller does not reach
  \<open>fetched\<close> through that operation; its state keeps neither data nor error, so the
  failure is not surfaced as an \<open>error\<close> state either. The step leaves state, trace and
  cache as they were and only removes the operation.
\<close>

theorem C2_store_read_failure_ends_operation:
  assumes "url \<noteq> []" and "k < length (pending g)" and "pending g ! k = AwaitGet url"
  shows "trace (idb_run (idb_init c) [Render url, Resolve 0 (Failed e)])
           = [Dispatch url Loading, CacheRead url]
    \<and> pending (idb_run (idb_init c) [Render url, Resolve 0 (Failed e)]) = []
    \<and> data (state (idb_run (idb_init c) [Render url, Resolve 0 (Failed e)])) = None
    \<and> error (state (idb_run (idb_init c) [Render url, Resolve 0 (Failed e)])) = None
    \<and> cache (idb_run (idb_init c) [Render url, Resolve 0 (Failed e)]) = c
    \<and> trace (idb_step g (Resolve k (Failed e))) = trace g
    \<and> state (idb_step g (Resolve k (Failed e))) = state g
    \<and> cache (idb_step g (Resolve k (Failed e))) = cache g
    \<and> pending (idb_step g (Resolve k (Failed e))) = take k (pending g) @ drop (Suc k) (pending g)"
  using assms by (simp add: run_defs hook_defs)

theorem C2_store_read_failure_ends_operation_witness:
  "trace (idb_run (idb_init Map.empty)
      [Render ''http://x/posts'', Resolve 0 (Failed (JsError ''x''))])
     = [Dispatch ''http://x/posts'' Loading, CacheRead ''http://x/posts'']
   \<and> error (state (idb_run (idb_init Map.empty)
        [Render ''http://x/posts'', Resolve 0 (Failed (JsError ''x''))])) = None
   \<and> trace (idb_step (idb_run (idb_init Map.empty) [Render ''http://x/posts''])
        (Resolve 0 (Failed (JsError ''x''))))
     = [Dispatch ''http://x/posts'' Loading, CacheRead ''http://x/posts'']"
proof -
  let ?g = "idb_run (idb_init Map.empty) [Render ''http://x/posts'']"
  have u: "''http://x/posts'' \<noteq> []" by simp
  have g: "0 < length (pending ?g)" "pending ?g ! 0 = AwaitGet ''http://x/posts''"
    and tg: "trace ?g = [Dispatch ''http://x/posts'' Loading, CacheRead ''http://x/posts'']"
    by (simp_all add: run_defs hook_defs)
  from C2_store_read_failure_ends_operation [OF u g, of Map.empty "JsError ''x''"] tg
  show ?thesis by simp
qed

text \<open>The claim as written fails: with an empty store and a rejecting \<open>getItem\<close>, the
  transport is never called, no operation is left pending, and no later settlement
  brings the state to \<open>fetched\<close>.\<close>

theorem C2_store_read_failure_counterexample:
  "trace (idb_run (idb_init Map.empty) [Render ''a'', Resolve 0 (Failed (JsError ''x''))])
     = [Dispatch ''a'' Loading, CacheRead ''a'']
   \<and> pending (idb_run (idb_init Map.empty) [Render ''a'', Resolve 0 (Failed (JsError ''x''))]) = []
   \<and> data (state (idb_run (idb_init Map.empty)
        [Render ''a'', Resolve 0 (Failed (JsError ''x'')),
         Resolve 0 (Response True ''OK''), Resolve 0 (Body (JStr ''P'')), Resolve 0 Done])) = None"
  by (simp add: run_defs hook_defs)

text \<open>
  C3 (amended). In the durable variant, when the transport has succeeded with a payload
  and \<open>setItem\<close> then rejects with a reason, the \<open>catch\<close> block runs, since
  \<open>await cacheDb.setItem(url, data)\<close> stands inside the \<open>try\<close> block: unless the flag is
  set, the controller dispatches \<open>error\<close> with the store's reason and its state carries
  that error and no data; with the flag set nothing is dispatched. \<open>fetched\<close> is not
  reached and the store is unchanged.
\<close>

theorem C3_store_write_failure_is_error:
  assumes "k < length (pending h)" and "pending h ! k = AwaitSet url P"
  shows "state (idb_step h (Resolve k (Failed e)))
           = (if cancelRequest h then state h
              else \<lparr>data = None, error = Some e, isLoading = Some False\<rparr>)
    \<and> trace (idb_step h (Resolve k (Failed e)))
           = trace h @ (if cancelRequest h then [] else [Dispatch url (Error e)])
    \<and> cache (idb_step h (Resolve k (Failed e))) = cache h"
  using assms by (simp add: hook_defs idb_initialState_def)

theorem C3_store_write_failure_is_error_witness:
  "state (idb_step (idb_run (idb_init Map.empty)
      [Render ''a'', Resolve 0 Done, Resolve 0 (Response True ''OK''),
       Resolve 0 (Body (JStr ''P''))]) (Resolve 0 (Failed (JsError ''quota''))))
     = \<lparr>data = None, error = Some (JsError ''quota''), isLoading = Some False\<rparr>"
proof -
  let ?h = "idb_run (idb_init Map.empty)
      [Render ''a'', Resolve 0 Done, Resolve 0 (Response True ''OK''),
       Resolve 0 (Body (JStr ''P''))]"
  have p: "0 < length (pending ?h)" "pending ?h ! 0 = AwaitSet ''a'' (JStr ''P'')"
    and c: "\<not> cancelRequest ?h"
    by (simp_all add: run_defs hook_defs)
  from C3_store_write_failure_is_error [OF p, of "JsError ''quota''"] c
  show ?thesis by simp
qed

text \<open>The claim as written fails: miss, transport success with payload \<open>P\<close>, then a
  rejecting \<open>setItem\<close>. The consumer observes \<open>error\<close>, not \<open>fetched\<close>.\<close>

theorem C3_store_write_failure_counterexample:
  "trace (idb_run (idb_init Map.empty)
      [Render ''a'', Resolve 0 Done, Resolve 0 (Response True ''OK''),
       Resolve 0 (Body (JStr ''P'')), Resolve 0 (Failed (JsError ''quota''))])
     = [Dispatch ''a'' Loading, CacheRead ''a'', TransportCall ''a'',
        CacheWrite ''a'' (JStr ''P''), Dispatch ''a'' (Error (JsError ''quota''))]
   \<and> state (idb_run (idb_init Map.empty)
      [Render ''a'', Resolve 0 Done, Resolve 0 (Response True ''OK''),
       Resolve 0 (Body (JStr ''P'')), Resolve 0 (Failed (JsError ''quota''))])
     = \<lparr>data = None, error = Some (JsError ''quota''), isLoading = Some False\<rparr>"
  by (simp add: run_defs hook_defs)

section \<open>Cache hits, cache writes and transport failures\<close>

text \<open>
  C4 (amended). For a non-empty identifier under which the cache holds a truthy value
  \<open>V\<close> (any JSON value but \<open>null\<close>, \<open>false\<close>, \<open>0\<close> and the empty string), activating the
  controller with that identifier never calls the transport and reaches \<open>fetched\<close> with
  exactly \<open>V\<close>. Volatile variant: within the activation itself, which leaves no
  operation pending. Durable variant: the activation dispatches \<open>loading\<close> and calls
  \<open>getItem\<close>; when that resolves, \<open>fetched\<close> is dispatched with \<open>V\<close> and the operation
  is over.
\<close>

theorem C4_truthy_cache_hit_skips_transport:
  assumes "url \<noteq> []" and "truthy V"
    and "cache h url = Some V" and "deps h \<noteq> Some (Some url)"
    and "cache g url = Some V" and "k < length (pending g)" and "pending g ! k = AwaitGet url"
  shows "trace (obj_render (Some url) h)
           = trace h @ [Dispatch url Loading, CacheRead url, CacheRead url, Dispatch url (Fetched V)]
    \<and> pending (obj_render (Some url) h) = pending h
    \<and> state (obj_render (Some url) h) = \<lparr>data = Some V, error = None, isLoading = Some False\<rparr>
    \<and> trace (idb_render url h) = trace h @ [Dispatch url Loading, CacheRead url]
    \<and> pending (idb_render url h) = pending h @ [AwaitGet url]
    \<and> trace (idb_step g (Resolve k Done)) = trace g @ [Dispatch url (Fetched V)]
    \<and> pending (idb_step g (Resolve k Done)) = take k (pending g) @ drop (Suc k) (pending g)
    \<and> state (idb_step g (Resolve k Done)) = \<lparr>data = Some V, error = None, isLoading = Some False\<rparr>"
  using assms by (simp add: hook_defs obj_initialState_def idb_initialState_def)

theorem C4_truthy_cache_hit_skips_transport_witness:
  "trace (obj_render (Some ''k'') (obj_init (Map.empty(''k'' \<mapsto> JArr []))))
     = [Dispatch ''k'' Loading, CacheRead ''k'', CacheRead ''k'', Dispatch ''k'' (Fetched (JArr []))]
   \<and> pending (obj_render (Some ''k'') (obj_init (Map.empty(''k'' \<mapsto> JArr [])))) = []
   \<and> trace (idb_step (idb_run (idb_init (Map.empty(''k'' \<mapsto> JArr []))) [Render ''k''])
        (Resolve 0 Done))
     = [Dispatch ''k'' Loading, CacheRead ''k'', Dispatch ''k'' (Fetched (JArr []))]
   \<and> state (idb_step (idb_run (idb_init (Map.empty(''k'' \<mapsto> JArr []))) [Render ''k''])
        (Resolve 0 Done))
     = \<lparr>data = Some (JArr []), error = None, isLoading = Some False\<rparr>"
proof -
  let ?h = "obj_init (Map.empty(''k'' \<mapsto> JArr []))"
  let ?g = "idb_run (idb_init (Map.empty(''k'' \<mapsto> JArr []))) [Render ''k'']"
  have u: "''k'' \<noteq> []" "truthy (JArr [])" by simp_all
  have h: "cache ?h ''k'' = Some (JArr [])" "deps ?h \<noteq> Some (Some ''k'')"
    and th: "trace ?h = []" "pending ?h = []"
    by (simp_all add: run_defs)
  have g: "cache ?g ''k'' = Some (JArr [])" "0 < length (pending ?g)"
      "pending ?g ! 0 = AwaitGet ''k''"
    and tg: "trace ?g = [Dispatch ''k'' Loading, CacheRead ''k'']"
    by (simp_all add: run_defs hook_defs)
  from C4_truthy_cache_hit_skips_transport [OF u h g] th tg
  show ?thesis by simp
qed

text \<open>The claim as written fails on a cached value that is falsy: with the number \<open>0\<close>
  cached (volatile) or the empty string stored (durable), the activation calls the
  transport and the state carries no data. It also fails on the empty identifier: an
  entry under it is never looked up.\<close>

theorem C4_cache_hit_counterexample:
  "trace (obj_run (obj_init (Map.empty(''a'' \<mapsto> JNum 0))) [Render (Some ''a'')])
     = [Dispatch ''a'' Loading, CacheRead ''a'', TransportCall ''a'']
   \<and> data (state (obj_run (obj_init (Map.empty(''a'' \<mapsto> JNum 0))) [Render (Some ''a'')])) = None
   \<and> trace (idb_run (idb_init (Map.empty(''a'' \<mapsto> JStr []))) [Render ''a'', Resolve 0 Done])
     = [Dispatch ''a'' Loading, CacheRead ''a'', TransportCall ''a'']
   \<and> data (state (idb_run (idb_init (Map.empty(''a'' \<mapsto> JStr [])))
        [Render ''a'', Resolve 0 Done])) = None
   \<and> trace (obj_run (obj_init (Map.empty([] \<mapsto> JStr ''v''))) [Render (Some [])]) = []
   \<and> data (state (obj_run (obj_init (Map.empty([] \<mapsto> JStr ''v''))) [Render (Some [])])) = None"
  by (simp add: run_defs hook_defs)

text \<open>
  C5. When the body \<open>P\<close> of a successful transport call arrives, the cache is written
  before \<open>fetched\<close> is dispatched. Volatile variant: the step writes \<open>cache[url]\<close> and
  then, unless the flag is set, dispatches; the trace shows the write first. Durable
  variant: the step calls \<open>setItem\<close> and dispatches nothing; the dispatch comes in the
  step where \<open>setItem\<close> has resolved, with the store already holding \<open>P\<close>. And in
  general, from any state of either hook: whenever a step dispatches \<open>fetched\<close> with a
  payload, a lookup of the operation's url in the cache gives that payload when the step
  is over.
\<close>

theorem C5_cache_written_before_fetched:
  assumes "k < length (pending h)" and "pending h ! k = AwaitJson url"
    and "j < length (pending g)" and "pending g ! j = AwaitSet url P"
  shows "cache (obj_step h (Resolve k (Body P))) url = Some P
    \<and> trace (obj_step h (Resolve k (Body P)))
        = trace h @ CacheWrite url P # (if cancelRequest h then [] else [Dispatch url (Fetched P)])
    \<and> trace (idb_step h (Resolve k (Body P))) = trace h @ [CacheWrite url P]
    \<and> pending (idb_step h (Resolve k (Body P)))
        = take k (pending h) @ drop (Suc k) (pending h) @ [AwaitSet url P]
    \<and> cache (idb_step g (Resolve j Done)) url = Some P
    \<and> trace (idb_step g (Resolve j Done))
        = trace g @ (if cancelRequest g then [] else [Dispatch url (Fetched P)])
    \<and> (\<forall>s i u Q. Dispatch u (Fetched Q) \<in> set (drop (length (trace s)) (trace (obj_step s i)))
          \<longrightarrow> cache (obj_step s i) u = Some Q)
    \<and> (\<forall>s i u Q. Dispatch u (Fetched Q) \<in> set (drop (length (trace s)) (trace (idb_step s i)))
          \<longrightarrow> cache (idb_step s i) u = Some Q)"
  using assms obj_step_fetched_cached idb_step_fetched_cached
  by (simp add: hook_defs Let_def)

theorem C5_cache_written_before_fetched_witness:
  "trace (obj_step
      (obj_run (obj_init Map.empty) [Render (Some ''a''), Resolve 0 (Response True ''OK'')])
      (Resolve 0 (Body (JStr ''P''))))
     = [Dispatch ''a'' Loading, CacheRead ''a'', TransportCall ''a'',
        CacheWrite ''a'' (JStr ''P''), Dispatch ''a'' (Fetched (JStr ''P''))]
   \<and> cache (obj_step
      (obj_run (obj_init Map.empty) [Render (Some ''a''), Resolve 0 (Response True ''OK'')])
      (Resolve 0 (Body (JStr ''P'')))) ''a'' = Some (JStr ''P'')
   \<and> trace (idb_step
      (idb_run (idb_init Map.empty)
         [Render ''a'', Resolve 0 Done, Resolve 0 (Response True ''OK''),
          Resolve 0 (Body (JStr ''P''))])
      (Resolve 0 Done))
     = [Dispatch ''a'' Loading, CacheRead ''a'', TransportCall ''a'',
        CacheWrite ''a'' (JStr ''P''), Dispatch ''a'' (Fetched (JStr ''P''))]
   \<and> cache (idb_step
      (idb_run (idb_init Map.empty)
         [Render ''a'', Resolve 0 Done, Resolve 0 (Response True ''OK''),
          Resolve 0 (Body (JStr ''P''))])
      (Resolve 0 Done)) ''a'' = Some (JStr ''P'')"
proof -
  let ?h = "obj_run (obj_init Map.empty) [Render (Some ''a''), Resolve 0 (Response True ''OK'')]"
  let ?g = "idb_run (idb_init Map.empty)
         [Render ''a'', Resolve 0 Done, Resolve 0 (Response True ''OK''),
          Resolve 0 (Body (JStr ''P''))]"
  have h: "0 < length (pending ?h)" "pending ?h ! 0 = AwaitJson ''a''"
    and th: "trace ?h = [Dispatch ''a'' Loading, CacheRead ''a'', TransportCall ''a'']"
      "\<not> cancelRequest ?h"
    by (simp_all add: run_defs hook_defs)
  have g: "0 < length (pending ?g)" "pending ?g ! 0 = AwaitSet ''a'' (JStr ''P'')"
    and tg: "trace ?g = [Dispatch ''a'' Loading, CacheRead ''a'', TransportCall ''a'',
        CacheWrite ''a'' (JStr ''P'')]" "\<not> cancelRequest ?g"
    by (simp_all add: run_defs hook_defs)
  from C5_cache_written_before_fetched [OF h g] th tg
  show ?thesis by simp
qed

text \<open>
  C6. When the transport responds with a status that is not ok, the operation ends as
  for a transport-level exception whose message is the response's status text: the
  step is the same step, the controller dispatches \<open>error\<close>, its state carries the
  status text as the error and no data, and the cache is unchanged. The operation is
  one whose flag is not set when the response arrives, the case of a failure that is
  reported at all.
\<close>

theorem C6_non_ok_same_as_exception:
  assumes "k < length (pending h)" and "pending h ! k = AwaitFetch url"
    and "\<not> cancelRequest h"
  shows "obj_step h (Resolve k (Response False st)) = obj_step h (Resolve k (Failed (JsError st)))
    \<and> idb_step h (Resolve k (Response False st)) = idb_step h (Resolve k (Failed (JsError st)))
    \<and> state (obj_step h (Resolve k (Response False st)))
        = \<lparr>data = None, error = Some (JsError st), isLoading = Some False\<rparr>
    \<and> state (idb_step h (Resolve k (Response False st)))
        = \<lparr>data = None, error = Some (JsError st), isLoading = Some False\<rparr>
    \<and> trace (obj_step h (Resolve k (Response False st)))
        = trace h @ [Dispatch url (Error (JsError st))]
    \<and> trace (idb_step h (Resolve k (Response False st)))
        = trace h @ [Dispatch url (Error (JsError st))]
    \<and> cache (obj_step h (Resolve k (Response False st))) = cache h
    \<and> cache (idb_step h (Resolve k (Response False st))) = cache h"
  using assms by (simp add: hook_defs obj_initialState_def idb_initialState_def)

theorem C6_non_ok_same_as_exception_witness:
  "state (obj_step (obj_run (obj_init Map.empty) [Render (Some ''http://x/posts'')])
      (Resolve 0 (Response False ''Not Found'')))
     = \<lparr>data = None, error = Some (JsError ''Not Found''), isLoading = Some False\<rparr>
   \<and> trace (obj_step (obj_run (obj_init Map.empty) [Render (Some ''http://x/posts'')])
      (Resolve 0 (Response False ''Not Found'')))
     = [Dispatch ''http://x/posts'' Loading, CacheRead ''http://x/posts'',
        TransportCall ''http://x/posts'',
        Dispatch ''http://x/posts'' (Error (JsError ''Not Found''))]
   \<and> cache (obj_step (obj_run (obj_init Map.empty) [Render (Some ''http://x/posts'')])
      (Resolve 0 (Response False ''Not Found''))) = Map.empty"
proof -
  let ?h = "obj_run (obj_init Map.empty) [Render (Some ''http://x/posts'')]"
  have h: "0 < length (pending ?h)" "pending ?h ! 0 = AwaitFetch ''http://x/posts''"
      "\<not> cancelRequest ?h"
    and th: "trace ?h = [Dispatch ''http://x/posts'' Loading, CacheRead ''http://x/posts'',
        TransportCall ''http://x/posts'']" "cache ?h = Map.empty"
    by (simp_all add: run_defs hook_defs)
  from C6_non_ok_same_as_exception [OF h, of "''Not Found''", THEN conjunct2, THEN conjunct2] th
  show ?thesis by (simp del: obj_step.simps idb_step.simps)
qed

section \<open>The empty identifier\<close>

text \<open>
  C8 (amended). An activation with an empty or absent identifier does nothing to the
  controller's state: the state is left as it was, so it is idle when it was idle, as
  at the first activation. The activation calls the transport zero times and reads and
  writes the cache zero times: the trace, the cache and the pending operations are
  unchanged.
\<close>

theorem C8_empty_identifier_does_nothing:
  "state (obj_render None h) = state h \<and> trace (obj_render None h) = trace h
   \<and> cache (obj_render None h) = cache h \<and> pending (obj_render None h) = pending h
   \<and> state (obj_render (Some []) h) = state h \<and> trace (obj_render (Some []) h) = trace h
   \<and> cache (obj_render (Some []) h) = cache h \<and> pending (obj_render (Some []) h) = pending h
   \<and> state (idb_render [] h) = state h \<and> trace (idb_render [] h) = trace h
   \<and> cache (idb_render [] h) = cache h \<and> pending (idb_render [] h) = pending h
   \<and> is_idle (state (obj_run (obj_init c) [Render None]))
   \<and> is_idle (state (obj_run (obj_init c) [Render (Some [])]))
   \<and> is_idle (state (idb_run (idb_init c) [Render []]))"
  by (simp add: run_defs hook_defs is_idle_def)

text \<open>The claim as written fails when the identifier is cleared after a fetch: the
  state keeps the fetched data and is not idle, in both variants.\<close>

theorem C8_empty_identifier_counterexample:
  "state (obj_run (obj_init (Map.empty(''a'' \<mapsto> JStr ''v''))) [Render (Some ''a''), Render None])
     = \<lparr>data = Some (JStr ''v''), error = None, isLoading = Some False\<rparr>
   \<and> \<not> is_idle (state (obj_run (obj_init (Map.empty(''a'' \<mapsto> JStr ''v'')))
        [Render (Some ''a''), Render None]))
   \<and> \<not> is_idle (state (obj_run (obj_init (Map.empty(''a'' \<mapsto> JStr ''v'')))
        [Render (Some ''a''), Render (Some [])]))
   \<and> \<not> is_idle (state (idb_run (idb_init (Map.empty(''a'' \<mapsto> JStr ''v'')))
        [Render ''a'', Resolve 0 Done, Render []]))"
  by (simp add: run_defs hook_defs is_idle_def)

end
